theory Spec2Isabelle
  imports Main
begin

section \<open>Data model\<close>

text \<open>
  Python strings are modelled as \<open>string\<close>; a \<open>char\<close> stands for the code point of the
  same number, so the strings covered are those over U+0000 .. U+00FF. The tables below
  (\<open>isspace\<close>, \<open>isdigit\<close>, the regular expression class \<open>\d\<close>, \<open>upper\<close>) are the
  ones of the Python built-ins on that range.

  A Python value found in a record or in an issue is a string, an integer or \<open>None\<close>.
  A record (one row of the input) is a dictionary from field names to values:
  \<open>csv.DictReader\<close> stores a string for every column a row has and \<open>None\<close> for the
  columns a short row lacks. An issue is a dictionary literal; it is kept as an association
  list in the order the source writes its keys, read with \<open>map_of\<close>.
\<close>

datatype pyval = PStr string | PInt int | PNone

datatype error = AttributeError | ValueError | KeyError

type_synonym record_row = "string \<rightharpoonup> pyval"

type_synonym issue = "(string \<times> pyval) list"

text \<open>\<open>d.get(key, default)\<close> on a record and on an issue.\<close>

definition record_get :: "record_row \<Rightarrow> string \<Rightarrow> pyval \<Rightarrow> pyval" where
  "record_get record key dflt = (case record key of None \<Rightarrow> dflt | Some v \<Rightarrow> v)"

definition issue_get :: "issue \<Rightarrow> string \<Rightarrow> pyval \<Rightarrow> pyval" where
  "issue_get issue key dflt = (case map_of issue key of None \<Rightarrow> dflt | Some v \<Rightarrow> v)"

subsection \<open>Constants\<close>

definition EXIT_OK :: nat where "EXIT_OK = 0"
definition EXIT_WARNING :: nat where "EXIT_WARNING = 5"
definition EXIT_ISSUES_FOUND :: nat where "EXIT_ISSUES_FOUND = 10"
definition EXIT_INPUT_ERROR :: nat where "EXIT_INPUT_ERROR = 20"
definition EXIT_INTERNAL_ERROR :: nat where "EXIT_INTERNAL_ERROR = 30"

definition SEVERITY_RANK :: "(string \<times> nat) list" where
  "SEVERITY_RANK = [(''info'', 1), (''warning'', 2), (''error'', 3)]"

text \<open>
  The command line, as far as the computation reads it. \<open>argparse\<close> restricts
  \<open>--severity-threshold\<close> to the three levels; the field is a string all the same, and
  \<open>SEVERITY_RANK[threshold]\<close> raises \<open>KeyError\<close> on any other.
\<close>

record args =
  fail_on_warning :: bool
  severity_threshold :: string

record summary =
  total_records :: nat
  total_issues :: nat
  severity_counts :: "(string \<times> nat) list"

section \<open>Severity aggregation\<close>

text \<open>\<open>issue.get("severity", "warning")\<close>, the expression both aggregators start from.\<close>

definition effective_severity :: "issue \<Rightarrow> pyval" where
  "effective_severity issue = issue_get issue ''severity'' (PStr ''warning'')"

text \<open>\<open>SEVERITY_RANK.get(v, 0)\<close>: a value that is no key of the table has rank 0.\<close>

definition rank_get :: "pyval \<Rightarrow> nat" where
  "rank_get v =
     (case v of
        PStr s \<Rightarrow> (case map_of SEVERITY_RANK s of None \<Rightarrow> 0 | Some r \<Rightarrow> r)
      | _ \<Rightarrow> 0)"

definition filter_issues_by_severity :: "issue list \<Rightarrow> string \<Rightarrow> error + issue list" where
  "filter_issues_by_severity issues threshold =
     (case map_of SEVERITY_RANK threshold of
        None \<Rightarrow> Inl KeyError
      | Some threshold_rank \<Rightarrow>
          Inr (filter (\<lambda>issue. rank_get (effective_severity issue) \<ge> threshold_rank) issues))"

text \<open>\<open>counts[severity] += 1\<close> on a dictionary that has the key.\<close>

fun increment :: "string \<Rightarrow> (string \<times> nat) list \<Rightarrow> (string \<times> nat) list" where
  "increment key [] = []"
| "increment key ((k, n) # rest) =
     (if k = key then (k, n + 1) # rest else (k, n) # increment key rest)"

definition count_step :: "(string \<times> nat) list \<Rightarrow> issue \<Rightarrow> (string \<times> nat) list" where
  "count_step counts issue =
     (case effective_severity issue of
        PStr severity \<Rightarrow>
          (if map_of counts severity \<noteq> None then increment severity counts else counts)
      | _ \<Rightarrow> counts)"

definition count_issues_by_severity :: "issue list \<Rightarrow> (string \<times> nat) list" where
  "count_issues_by_severity issues =
     foldl count_step [(''info'', 0), (''warning'', 0), (''error'', 0)] issues"

definition build_summary :: "record_row list \<Rightarrow> issue list \<Rightarrow> summary" where
  "build_summary records issues =
     \<lparr> total_records = length records,
       total_issues = length issues,
       severity_counts = count_issues_by_severity issues \<rparr>"

section \<open>Exit code\<close>

definition determine_exit_code :: "summary \<Rightarrow> issue list \<Rightarrow> args \<Rightarrow> error + nat" where
  "determine_exit_code summ issues a =
     (if total_records summ = 0 then Inr EXIT_OK
      else
        (case filter_issues_by_severity issues (severity_threshold a) of
           Inl e \<Rightarrow> Inl e
         | Inr blocking \<Rightarrow>
             (if blocking \<noteq> [] \<and> fail_on_warning a then Inr EXIT_WARNING
              else if blocking \<noteq> [] then Inr EXIT_ISSUES_FOUND
              else Inr EXIT_OK)))"

section \<open>String primitives\<close>

text \<open>
  \<open>str.strip()\<close> removes, at both ends, the characters for which \<open>str.isspace\<close> holds:
  U+0009 .. U+000D, U+001C .. U+0020, U+0085 and U+00A0 on the range modelled.
\<close>

definition isspace :: "char \<Rightarrow> bool" where
  "isspace c = ((of_char c :: nat) \<in> set [9, 10, 11, 12, 13, 28, 29, 30, 31, 32, 133, 160])"

definition strip :: "string \<Rightarrow> string" where
  "strip s = rev (dropWhile isspace (rev (dropWhile isspace s)))"

text \<open>\<open>v.strip()\<close> on a value: only a string has the method.\<close>

definition py_strip :: "pyval \<Rightarrow> error + string" where
  "py_strip v = (case v of PStr s \<Rightarrow> Inr (strip s) | _ \<Rightarrow> Inl AttributeError)"

text \<open>Truth value of a Python value, as \<open>not v\<close> and \<open>if v\<close> read it.\<close>

definition truthy :: "pyval \<Rightarrow> bool" where
  "truthy v = (case v of PStr s \<Rightarrow> s \<noteq> [] | PInt n \<Rightarrow> n \<noteq> 0 | PNone \<Rightarrow> False)"

text \<open>The character class \<open>[lo-hi]\<close>, and the decimal digits (\<open>\d\<close>, category Nd).\<close>

definition in_range :: "char \<Rightarrow> char \<Rightarrow> char \<Rightarrow> bool" where
  "in_range lo hi c = ((of_char lo :: nat) \<le> of_char c \<and> (of_char c :: nat) \<le> of_char hi)"

definition is_decimal :: "char \<Rightarrow> bool" where
  "is_decimal c = in_range CHR ''0'' CHR ''9'' c"

definition digit_value :: "char \<Rightarrow> nat" where
  "digit_value c = of_char c - 48"

text \<open>
  \<open>str.isdigit()\<close>: the string is not empty and every character has the Unicode property
  Numeric_Type Decimal or Digit. Besides the ten decimal digits that holds for the
  superscripts U+00B2, U+00B3 and U+00B9.
\<close>

definition isdigit_char :: "char \<Rightarrow> bool" where
  "isdigit_char c = (is_decimal c \<or> (of_char c :: nat) \<in> set [178, 179, 185])"

definition isdigit :: "string \<Rightarrow> bool" where
  "isdigit s = (s \<noteq> [] \<and> list_all isdigit_char s)"

text \<open>
  \<open>int(s)\<close> on a string: white space around the literal is skipped (not U+001C .. U+001F,
  which \<open>strip\<close> removes and \<open>int\<close> rejects), one sign is allowed, then decimal digits
  with single underscores between them. Anything else raises \<open>ValueError\<close>, and so does
  a literal of more digits than the interpreter's limit
  (\<open>sys.get_int_max_str_digits()\<close>: 4300 unless configured, 0 for no limit, never
  between 1 and 639).
\<close>

definition int_space :: "char \<Rightarrow> bool" where
  "int_space c = ((of_char c :: nat) \<in> set [9, 10, 11, 12, 13, 32, 133, 160])"

fun int_literal :: "string \<Rightarrow> bool" where
  "int_literal [] = False"
| "int_literal [c] = is_decimal c"
| "int_literal (c # u # rest) =
     (is_decimal c \<and> (if u = CHR ''_'' then int_literal rest else int_literal (u # rest)))"

definition py_int :: "nat \<Rightarrow> string \<Rightarrow> error + int" where
  "py_int max_str_digits s =
     (let t = rev (dropWhile int_space (rev (dropWhile int_space s)));
          negative = (case t of [] \<Rightarrow> False | c # _ \<Rightarrow> c = CHR ''-'');
          body = (case t of [] \<Rightarrow> t | c # r \<Rightarrow> if c = CHR ''-'' \<or> c = CHR ''+'' then r else t);
          digits = filter is_decimal body;
          magnitude = int (foldl (\<lambda>acc c. 10 * acc + digit_value c) 0 digits)
      in if \<not> int_literal body then Inl ValueError
         else if max_str_digits > 0 \<and> length digits > max_str_digits then Inl ValueError
         else Inr (if negative then - magnitude else magnitude))"

text \<open>\<open>s.split(sep)\<close> for a separator of one character.\<close>

fun split_char :: "char \<Rightarrow> string \<Rightarrow> string list" where
  "split_char sep [] = [[]]"
| "split_char sep (c # cs) =
     (if c = sep then [] # split_char sep cs
      else (case split_char sep cs of [] \<Rightarrow> [[c]] | part # parts \<Rightarrow> (c # part) # parts))"

text \<open>
  \<open>str.upper()\<close> leaves the range modelled (U+00B5 and U+00FF) and can lengthen the
  string (U+00DF becomes SS), so its result is a list of code points.
\<close>

definition upper_char :: "char \<Rightarrow> nat list" where
  "upper_char c =
     (let n = of_char c
      in if (97 \<le> n \<and> n \<le> 122) \<or> (224 \<le> n \<and> n \<le> 254 \<and> n \<noteq> 247) then [n - 32]
         else if n = 181 then [924]
         else if n = 223 then [83, 83]
         else if n = 255 then [376]
         else [n])"

definition upper :: "string \<Rightarrow> nat list" where
  "upper s = concat (map upper_char s)"

section \<open>Dates\<close>

record pydate =
  year :: nat
  month :: nat
  day :: nat

definition date_less :: "pydate \<Rightarrow> pydate \<Rightarrow> bool" where
  "date_less a b =
     (year a < year b \<or>
      (year a = year b \<and> (month a < month b \<or> (month a = month b \<and> day a < day b))))"

definition is_leap :: "nat \<Rightarrow> bool" where
  "is_leap y = (y mod 4 = 0 \<and> (y mod 100 \<noteq> 0 \<or> y mod 400 = 0))"

definition days_in_month :: "nat \<Rightarrow> nat \<Rightarrow> nat" where
  "days_in_month y m =
     (if m = 2 then (if is_leap y then 29 else 28)
      else if m \<in> set [4, 6, 9, 11] then 30 else 31)"

text \<open>
  \<open>datetime.strptime\<close> for formats made of the directives \<open>%d\<close>, \<open>%m\<close>, \<open>%Y\<close>,
  \<open>%y\<close> (each at most once, one year directive at most) and the separator \<open>/\<close>, which
  is what \<open>accepted_formats\<close> holds. The library turns the format into a regular
  expression, one group per directive:
  \<^item> \<open>%d\<close>: \<open>3[0-1]|[1-2]\d|0[1-9]|[1-9]| [1-9]\<close>
  \<^item> \<open>%m\<close>: \<open>1[0-2]|0[1-9]|[1-9]\<close>
  \<^item> \<open>%Y\<close>: \<open>\d\d\d\d\<close>, and \<open>%y\<close>: \<open>\d\d\<close>

  It matches the expression at the start of the text, and raises \<open>ValueError\<close> when there
  is no match, when the match leaves text over, or when the numbers found are no calendar
  date. \<open>alternatives\<close> lists, in the order the expression tries them, the ways one
  directive can match at the start of a text: the number read and the text left.
\<close>

datatype directive = Dir_d | Dir_m | Dir_Y | Dir_y | Slash

fun alternatives :: "directive \<Rightarrow> string \<Rightarrow> (nat \<times> string) list" where
  "alternatives Dir_d s =
     (case s of a # b # r \<Rightarrow>
        if a = CHR ''3'' \<and> in_range CHR ''0'' CHR ''1'' b then [(30 + digit_value b, r)] else []
      | _ \<Rightarrow> []) @
     (case s of a # b # r \<Rightarrow>
        if in_range CHR ''1'' CHR ''2'' a \<and> is_decimal b
        then [(10 * digit_value a + digit_value b, r)] else []
      | _ \<Rightarrow> []) @
     (case s of a # b # r \<Rightarrow>
        if a = CHR ''0'' \<and> in_range CHR ''1'' CHR ''9'' b then [(digit_value b, r)] else []
      | _ \<Rightarrow> []) @
     (case s of a # r \<Rightarrow>
        if in_range CHR ''1'' CHR ''9'' a then [(digit_value a, r)] else []
      | _ \<Rightarrow> []) @
     (case s of a # b # r \<Rightarrow>
        if a = CHR '' '' \<and> in_range CHR ''1'' CHR ''9'' b then [(digit_value b, r)] else []
      | _ \<Rightarrow> [])"
| "alternatives Dir_m s =
     (case s of a # b # r \<Rightarrow>
        if a = CHR ''1'' \<and> in_range CHR ''0'' CHR ''2'' b then [(10 + digit_value b, r)] else []
      | _ \<Rightarrow> []) @
     (case s of a # b # r \<Rightarrow>
        if a = CHR ''0'' \<and> in_range CHR ''1'' CHR ''9'' b then [(digit_value b, r)] else []
      | _ \<Rightarrow> []) @
     (case s of a # r \<Rightarrow>
        if in_range CHR ''1'' CHR ''9'' a then [(digit_value a, r)] else []
      | _ \<Rightarrow> [])"
| "alternatives Dir_Y s =
     (case s of a # b # c # d # r \<Rightarrow>
        if is_decimal a \<and> is_decimal b \<and> is_decimal c \<and> is_decimal d
        then [(1000 * digit_value a + 100 * digit_value b + 10 * digit_value c + digit_value d, r)]
        else []
      | _ \<Rightarrow> [])"
| "alternatives Dir_y s =
     (case s of a # b # r \<Rightarrow>
        if is_decimal a \<and> is_decimal b then [(10 * digit_value a + digit_value b, r)] else []
      | _ \<Rightarrow> [])"
| "alternatives Slash s =
     (case s of a # r \<Rightarrow> if a = CHR ''/'' then [(0, r)] else [] | _ \<Rightarrow> [])"

text \<open>
  The match backtracks: a directive takes its first alternative after which the rest of
  the format matches. The result is the numbers found and the text the match left.
\<close>

fun re_match :: "directive list \<Rightarrow> string \<Rightarrow> (directive \<times> nat) list
      \<Rightarrow> ((directive \<times> nat) list \<times> string) option"
  and first_match :: "directive list \<Rightarrow> (directive \<times> nat) list \<Rightarrow> directive
      \<Rightarrow> (nat \<times> string) list \<Rightarrow> ((directive \<times> nat) list \<times> string) option" where
  "re_match [] s found = Some (found, s)"
| "re_match (d # ds) s found = first_match ds found d (alternatives d s)"
| "first_match ds found d [] = None"
| "first_match ds found d ((v, r) # alts) =
     (case re_match ds r ((d, v) # found) of
        Some res \<Rightarrow> Some res
      | None \<Rightarrow> first_match ds found d alts)"

definition strptime :: "string \<Rightarrow> directive list \<Rightarrow> error + pydate" where
  "strptime data_string fmt =
     (case re_match fmt data_string [] of
        None \<Rightarrow> Inl ValueError
      | Some (found, rest) \<Rightarrow>
          if rest \<noteq> [] then Inl ValueError
          else
            (let given =
                   (case map_of found Dir_Y of
                      Some v \<Rightarrow> Some v
                    | None \<Rightarrow>
                        (case map_of found Dir_y of
                           Some v \<Rightarrow> Some (if v \<le> 68 then v + 2000 else v + 1900)
                         | None \<Rightarrow> None));
                 m = (case map_of found Dir_m of Some v \<Rightarrow> v | None \<Rightarrow> 1);
                 d = (case map_of found Dir_d of Some v \<Rightarrow> v | None \<Rightarrow> 1);
                 y = (case given of
                        Some v \<Rightarrow> v
                      | None \<Rightarrow> if m = 2 \<and> d = 29 then 1904 else 1900)
             in if 1 \<le> y \<and> y \<le> 9999 \<and> 1 \<le> m \<and> m \<le> 12 \<and> 1 \<le> d \<and> d \<le> days_in_month y m
                then Inr \<lparr> year = y, month = m, day = d \<rparr>
                else Inl ValueError))"

section \<open>Environment\<close>

text \<open>
  What a run takes from outside the program: the interpreter's limit on the digits of an
  integer literal, the country data of \<open>pycountry\<close> (\<open>countries_lookup env raw\<close> is the
  name of \<open>pycountry.countries.lookup(raw)\<close>, or \<open>None\<close> where that raises
  \<open>LookupError\<close>), and the value of \<open>date.today()\<close>.
\<close>

record env =
  int_max_str_digits :: nat
  countries_lookup :: "nat list \<Rightarrow> string option"
  today :: pydate

section \<open>Field validators\<close>

text \<open>
  Each validator is the loop \<open>for idx, record in enumerate(records, start=1)\<close> around a
  body that appends to \<open>issues\<close>. \<open>for_enumerate body idx records\<close> is that loop from
  index \<open>idx\<close> on: the issues of all iterations in order, or the first exception.
\<close>

fun for_enumerate :: "(nat \<Rightarrow> record_row \<Rightarrow> error + issue list) \<Rightarrow> nat \<Rightarrow> record_row list
      \<Rightarrow> error + issue list" where
  "for_enumerate body idx [] = Inr []"
| "for_enumerate body idx (record # rest) =
     (case body idx record of
        Inl e \<Rightarrow> Inl e
      | Inr found \<Rightarrow>
          (case for_enumerate body (Suc idx) rest of
             Inl e \<Rightarrow> Inl e
           | Inr later \<Rightarrow> Inr (found @ later)))"

subsection \<open>Email\<close>

definition check_invalid_emails_body :: "nat \<Rightarrow> record_row \<Rightarrow> error + issue list" where
  "check_invalid_emails_body idx record =
     (case py_strip (record_get record ''email'' (PStr [])) of
        Inl e \<Rightarrow> Inl e
      | Inr email \<Rightarrow>
          if email = [] then
            Inr [[(''row'', PInt (int idx)), (''field'', PStr ''email''),
                  (''value'', PStr email), (''reason'', PStr ''email missing or empty'')]]
          else if count_list email CHR ''@'' \<noteq> 1 then
            Inr [[(''row'', PInt (int idx)), (''field'', PStr ''email''),
                  (''value'', PStr email), (''issue'', PStr ''missing or multiple @''),
                  (''severity'', PStr ''warning'')]]
          else
            (case split_char CHR ''@'' email of
               [local_part, domain] \<Rightarrow>
                 if local_part = [] \<or> domain = [] then
                   Inr [[(''row'', PInt (int idx)), (''field'', PStr ''email''),
                         (''value'', PStr email),
                         (''reason'', PStr ''Invalid local or domain part''),
                         (''severity'', PStr ''warning'')]]
                 else if CHR ''.'' \<notin> set domain then
                   Inr [[(''row'', PInt (int idx)), (''field'', PStr ''email''),
                         (''value'', PStr email), (''reason'', PStr ''domain missing dot''),
                         (''severity'', PStr ''warning'')]]
                 else if hd domain = CHR ''.'' \<or> last domain = CHR ''.'' then
                   Inr [[(''row'', PInt (int idx)), (''field'', PStr ''email''),
                         (''value'', PStr email),
                         (''reason'', PStr ''domain starts or ends with a dot''),
                         (''severity'', PStr ''warning'')]]
                 else Inr []
             | _ \<Rightarrow> Inl ValueError))"

definition check_invalid_emails :: "record_row list \<Rightarrow> error + issue list" where
  "check_invalid_emails records = for_enumerate check_invalid_emails_body 1 records"

subsection \<open>Age\<close>

definition check_invalid_ages_body :: "env \<Rightarrow> nat \<Rightarrow> record_row \<Rightarrow> error + issue list" where
  "check_invalid_ages_body env idx record =
     (case py_strip (record_get record ''age'' (PStr [])) of
        Inl e \<Rightarrow> Inl e
      | Inr age_raw \<Rightarrow>
          if age_raw = [] then
            Inr [[(''row'', PInt (int idx)), (''field'', PStr ''age''),
                  (''value'', PStr age_raw), (''reason'', PStr ''age missing''),
                  (''severity'', PStr ''warning'')]]
          else if \<not> isdigit age_raw then
            Inr [[(''row'', PInt (int idx)), (''field'', PStr ''age''),
                  (''value'', PStr age_raw), (''reason'', PStr ''age not numerical''),
                  (''severity'', PStr ''warning'')]]
          else
            (case py_int (int_max_str_digits env) age_raw of
               Inl e \<Rightarrow> Inl e
             | Inr age \<Rightarrow>
                 if age < 1 \<or> age > 120 then
                   Inr [[(''row'', PInt (int idx)), (''field'', PStr ''age''),
                         (''value'', PInt age), (''reason'', PStr ''age out of range''),
                         (''severity'', PStr ''warning'')]]
                 else Inr []))"

definition check_invalid_ages :: "env \<Rightarrow> record_row list \<Rightarrow> error + issue list" where
  "check_invalid_ages env records = for_enumerate (check_invalid_ages_body env) 1 records"

subsection \<open>Country\<close>

definition UK_ALIASES :: "nat list list" where
  "UK_ALIASES = map (map of_char) [''UK'', ''U.K.'', ''UNITED KINGDOM'']"

definition resolve_country :: "env \<Rightarrow> pyval \<Rightarrow> error + string option" where
  "resolve_country env v =
     (if \<not> truthy v then Inr None
      else
        (case py_strip v of
           Inl e \<Rightarrow> Inl e
         | Inr stripped \<Rightarrow>
             (let raw = upper stripped
              in if raw \<in> set UK_ALIASES then Inr (Some ''United Kingdom'')
                 else Inr (countries_lookup env raw))))"

definition check_invalid_countries_body :: "env \<Rightarrow> nat \<Rightarrow> record_row \<Rightarrow> error + issue list" where
  "check_invalid_countries_body env idx record =
     (let raw_country = record_get record ''country'' PNone
      in case resolve_country env raw_country of
           Inl e \<Rightarrow> Inl e
         | Inr resolved \<Rightarrow>
             if resolved = None \<or> resolved = Some [] then
               Inr [[(''row'', PInt (int idx)), (''field'', PStr ''country''),
                     (''value'', raw_country), (''reason'', PStr ''country missing or null''),
                     (''severity'', PStr ''warning'')]]
             else Inr [])"

definition check_invalid_countries :: "env \<Rightarrow> record_row list \<Rightarrow> error + issue list" where
  "check_invalid_countries env records =
     for_enumerate (check_invalid_countries_body env) 1 records"

subsection \<open>Signup date\<close>

text \<open>The formats \<open>"%d/%m/%Y"\<close> and \<open>"%y/%m/%d"\<close>, in the order of the source.\<close>

definition accepted_formats :: "directive list list" where
  "accepted_formats =
     [[Dir_d, Slash, Dir_m, Slash, Dir_Y], [Dir_y, Slash, Dir_m, Slash, Dir_d]]"

text \<open>
  The inner loop over the formats: the first format that parses wins, a \<open>ValueError\<close>
  moves on to the next format, and \<open>parsed_date\<close> stays \<open>None\<close> when none parses.
\<close>

fun parse_first :: "string \<Rightarrow> directive list list \<Rightarrow> error + pydate option" where
  "parse_first raw_date [] = Inr None"
| "parse_first raw_date (fmt # fmts) =
     (case strptime raw_date fmt of
        Inr parsed \<Rightarrow> Inr (Some parsed)
      | Inl e \<Rightarrow> if e = ValueError then parse_first raw_date fmts else Inl e)"

definition check_invalid_signup_dates_body :: "env \<Rightarrow> nat \<Rightarrow> record_row \<Rightarrow> error + issue list" where
  "check_invalid_signup_dates_body env idx record =
     (case py_strip (record_get record ''signup_date'' (PStr [])) of
        Inl e \<Rightarrow> Inl e
      | Inr raw_date \<Rightarrow>
          if raw_date = [] then
            Inr [[(''row'', PInt (int idx)), (''field'', PStr ''signup_date''),
                  (''value'', PStr raw_date), (''reason'', PStr ''signup date missing or empty''),
                  (''severity'', PStr ''warning'')]]
          else
            (case parse_first raw_date accepted_formats of
               Inl e \<Rightarrow> Inl e
             | Inr None \<Rightarrow>
                 Inr [[(''row'', PInt (int idx)), (''field'', PStr ''signup_date''),
                       (''value'', PStr raw_date), (''reason'', PStr ''Invalid date format''),
                       (''severity'', PStr ''warning'')]]
             | Inr (Some parsed_date) \<Rightarrow>
                 if date_less (today env) parsed_date then
                   Inr [[(''row'', PInt (int idx)), (''field'', PStr ''signup_date''),
                         (''value'', PStr raw_date),
                         (''reason'', PStr ''signup_date is in the future''),
                         (''severity'', PStr ''warning'')]]
                 else Inr []))"

definition check_invalid_signup_dates :: "env \<Rightarrow> record_row list \<Rightarrow> error + issue list" where
  "check_invalid_signup_dates env records =
     for_enumerate (check_invalid_signup_dates_body env) 1 records"

section \<open>The run\<close>

definition run_all_checks :: "env \<Rightarrow> record_row list \<Rightarrow> error + issue list" where
  "run_all_checks env records =
     (case check_invalid_emails records of
        Inl e \<Rightarrow> Inl e
      | Inr emails \<Rightarrow>
     (case check_invalid_ages env records of
        Inl e \<Rightarrow> Inl e
      | Inr ages \<Rightarrow>
     (case check_invalid_countries env records of
        Inl e \<Rightarrow> Inl e
      | Inr countries \<Rightarrow>
     (case check_invalid_signup_dates env records of
        Inl e \<Rightarrow> Inl e
      | Inr dates \<Rightarrow> Inr (emails @ ages @ countries @ dates)))))"

text \<open>
  \<open>main\<close> after the records are loaded: reading the input file and writing the exports
  are file operations and stay outside the model, which starts from the list
  \<open>load_records\<close> returns. The result holds what leaves the run: the summary that is
  printed and written to the JSON file, the issues handed to the exporters, and the exit
  code returned.
\<close>

record outcome =
  reported_summary :: summary
  exported_issues :: "issue list"
  exit_code :: nat

definition main :: "env \<Rightarrow> args \<Rightarrow> record_row list \<Rightarrow> error + outcome" where
  "main env a records =
     (case run_all_checks env records of
        Inl e \<Rightarrow> Inl e
      | Inr all_issues \<Rightarrow>
          (let summ = build_summary records all_issues
           in case filter_issues_by_severity all_issues (severity_threshold a) of
                Inl e \<Rightarrow> Inl e
              | Inr filtered_issues \<Rightarrow>
                  (case determine_exit_code summ filtered_issues a of
                     Inl e \<Rightarrow> Inl e
                   | Inr code \<Rightarrow>
                       Inr \<lparr> reported_summary = summ, exported_issues = filtered_issues,
                             exit_code = code \<rparr>)))"

text \<open>
  The block under \<open>if __name__ == "__main__"\<close>: any exception of \<open>main\<close> ends the
  process with \<open>EXIT_INTERNAL_ERROR\<close>.
\<close>

definition program :: "env \<Rightarrow> args \<Rightarrow> record_row list \<Rightarrow> nat" where
  "program env a records =
     (case main env a records of Inl e \<Rightarrow> EXIT_INTERNAL_ERROR | Inr out \<Rightarrow> exit_code out)"

section \<open>Properties of the severity aggregation\<close>

lemma rank_of_level:
  "t \<in> set [''info'', ''warning'', ''error''] \<Longrightarrow> \<exists>r. map_of SEVERITY_RANK t = Some r"
  by (auto simp: SEVERITY_RANK_def)

lemma filter_issues_by_severity_Inr:
  "map_of SEVERITY_RANK t = Some r \<Longrightarrow>
   filter_issues_by_severity issues t =
     Inr (filter (\<lambda>issue. r \<le> rank_get (effective_severity issue)) issues)"
  by (simp add: filter_issues_by_severity_def)

lemma length_filter_mono:
  "(\<And>x. x \<in> set xs \<Longrightarrow> P x \<Longrightarrow> Q x) \<Longrightarrow> length (filter P xs) \<le> length (filter Q xs)"
  by (induction xs) auto

lemma filter_issues_by_severity_twice:
  "filter_issues_by_severity issues t = Inr filtered \<Longrightarrow>
   filter_issues_by_severity filtered t = Inr filtered"
  by (auto simp: filter_issues_by_severity_def split: option.splits)

text \<open>
  Claim C6. The severity filter is monotonic: for thresholds \<open>t1\<close> and \<open>t2\<close> of ranks
  \<open>r1 \<le> r2\<close> (the order info, warning, error) and any issue list, the filter returns at
  both thresholds and keeps at \<open>t2\<close> at most as many issues as at \<open>t1\<close>.
\<close>

theorem severity_filter_monotonic:
  assumes "map_of SEVERITY_RANK t1 = Some r1"
    and "map_of SEVERITY_RANK t2 = Some r2"
    and "r1 \<le> r2"
  shows "\<exists>kept1 kept2.
           filter_issues_by_severity issues t1 = Inr kept1 \<and>
           filter_issues_by_severity issues t2 = Inr kept2 \<and>
           length kept2 \<le> length kept1"
proof -
  have "length (filter (\<lambda>issue. r2 \<le> rank_get (effective_severity issue)) issues)
      \<le> length (filter (\<lambda>issue. r1 \<le> rank_get (effective_severity issue)) issues)"
    using assms(3) by (intro length_filter_mono) simp
  then show ?thesis
    by (simp add: filter_issues_by_severity_Inr [OF assms(1)]
        filter_issues_by_severity_Inr [OF assms(2)])
qed

theorem severity_filter_monotonic_witness:
  "map_of SEVERITY_RANK ''info'' = Some 1 \<and> map_of SEVERITY_RANK ''error'' = Some 3 \<and>
   (\<exists>kept1 kept2.
      filter_issues_by_severity
        [[(''severity'', PStr ''info'')], [(''severity'', PStr ''error'')], []] ''info'' = Inr kept1 \<and>
      filter_issues_by_severity
        [[(''severity'', PStr ''info'')], [(''severity'', PStr ''error'')], []] ''error'' = Inr kept2 \<and>
      length kept1 = 3 \<and> length kept2 = 1 \<and> length kept2 \<le> length kept1)"
proof -
  have r1: "map_of SEVERITY_RANK ''info'' = Some 1"
    and r2: "map_of SEVERITY_RANK ''error'' = Some 3"
    by (simp_all add: SEVERITY_RANK_def)
  have le: "(1::nat) \<le> 3" by simp
  from severity_filter_monotonic [OF r1 r2 le,
      of "[[(''severity'', PStr ''info'')], [(''severity'', PStr ''error'')], []]"]
  show ?thesis
    by (simp add: r1 r2 filter_issues_by_severity_def SEVERITY_RANK_def rank_get_def
        effective_severity_def issue_get_def)
qed

text \<open>
  Claim C10. The severity filter is idempotent: at each of the three thresholds the filter
  returns, and filtering its result again with the same threshold returns that result
  unchanged. So \<open>determine_exit_code\<close>, called by \<open>main\<close> on the list \<open>main\<close> has
  filtered, decides on exactly that list: its exit code is the one read off
  \<open>filtered_issues\<close> itself.
\<close>

theorem filter_issues_by_severity_idempotent:
  assumes "severity_threshold a \<in> set [''info'', ''warning'', ''error'']"
  shows "\<exists>filtered_issues.
           filter_issues_by_severity issues (severity_threshold a) = Inr filtered_issues \<and>
           filter_issues_by_severity filtered_issues (severity_threshold a) = Inr filtered_issues \<and>
           determine_exit_code summ filtered_issues a =
             Inr (if total_records summ = 0 then EXIT_OK
                  else if filtered_issues \<noteq> [] \<and> fail_on_warning a then EXIT_WARNING
                  else if filtered_issues \<noteq> [] then EXIT_ISSUES_FOUND
                  else EXIT_OK)"
proof -
  obtain r where r: "map_of SEVERITY_RANK (severity_threshold a) = Some r"
    using rank_of_level [OF assms] by blast
  let ?f = "filter (\<lambda>issue. r \<le> rank_get (effective_severity issue)) issues"
  have 1: "filter_issues_by_severity issues (severity_threshold a) = Inr ?f"
    by (rule filter_issues_by_severity_Inr [OF r])
  have 2: "filter_issues_by_severity ?f (severity_threshold a) = Inr ?f"
    by (rule filter_issues_by_severity_twice [OF 1])
  have 3: "determine_exit_code summ ?f a =
             Inr (if total_records summ = 0 then EXIT_OK
                  else if ?f \<noteq> [] \<and> fail_on_warning a then EXIT_WARNING
                  else if ?f \<noteq> [] then EXIT_ISSUES_FOUND
                  else EXIT_OK)"
    unfolding determine_exit_code_def 2 by simp
  from 1 2 3 show ?thesis by blast
qed

theorem filter_issues_by_severity_idempotent_witness:
  "severity_threshold \<lparr> fail_on_warning = False, severity_threshold = ''warning'' \<rparr>
     \<in> set [''info'', ''warning'', ''error''] \<and>
   filter_issues_by_severity
     [[(''severity'', PStr ''info'')], [(''row'', PInt 1)], [(''severity'', PStr ''error'')]]
     ''warning'' = Inr [[(''row'', PInt 1)], [(''severity'', PStr ''error'')]] \<and>
   filter_issues_by_severity [[(''row'', PInt 1)], [(''severity'', PStr ''error'')]] ''warning'' =
     Inr [[(''row'', PInt 1)], [(''severity'', PStr ''error'')]] \<and>
   determine_exit_code
     \<lparr> total_records = 3, total_issues = 3,
       severity_counts = [(''info'', 1), (''warning'', 1), (''error'', 1)] \<rparr>
     [[(''row'', PInt 1)], [(''severity'', PStr ''error'')]]
     \<lparr> fail_on_warning = False, severity_threshold = ''warning'' \<rparr> = Inr EXIT_ISSUES_FOUND"
proof -
  let ?a = "\<lparr> fail_on_warning = False, severity_threshold = ''warning'' \<rparr>"
  let ?issues = "[[(''severity'', PStr ''info'')], [(''row'', PInt 1)],
                  [(''severity'', PStr ''error'')]] :: issue list"
  let ?s = "\<lparr> total_records = 3, total_issues = 3,
       severity_counts = [(''info'', 1), (''warning'', 1), (''error'', 1)] \<rparr>"
  have t: "severity_threshold ?a \<in> set [''info'', ''warning'', ''error'']" by simp
  have f: "filter_issues_by_severity ?issues ''warning'' =
             Inr [[(''row'', PInt 1)], [(''severity'', PStr ''error'')]]"
    by (simp add: filter_issues_by_severity_def SEVERITY_RANK_def rank_get_def
        effective_severity_def issue_get_def)
  from filter_issues_by_severity_idempotent [OF t, of ?issues ?s] f
  have "filter_issues_by_severity [[(''row'', PInt 1)], [(''severity'', PStr ''error'')]]
          ''warning'' = Inr [[(''row'', PInt 1)], [(''severity'', PStr ''error'')]] \<and>
        determine_exit_code ?s [[(''row'', PInt 1)], [(''severity'', PStr ''error'')]] ?a =
          Inr EXIT_ISSUES_FOUND"
    by simp
  with t f show ?thesis by blast
qed

subsection \<open>The tally\<close>

lemma foldl_count_step:
  "foldl count_step [(''info'', a), (''warning'', b), (''error'', c)] issues =
     [(''info'', a + length (filter (\<lambda>i. effective_severity i = PStr ''info'') issues)),
      (''warning'', b + length (filter (\<lambda>i. effective_severity i = PStr ''warning'') issues)),
      (''error'', c + length (filter (\<lambda>i. effective_severity i = PStr ''error'') issues))]"
proof (induction issues arbitrary: a b c)
  case Nil
  then show ?case by simp
next
  case (Cons i issues)
  show ?case
  proof (cases "effective_severity i")
    case (PStr s)
    consider "s = ''info''" | "s = ''warning''" | "s = ''error''"
      | "s \<noteq> ''info''" "s \<noteq> ''warning''" "s \<noteq> ''error''"
      by blast
    then show ?thesis
    proof cases
      case 1
      then show ?thesis using PStr Cons.IH [of "a + 1" b c] by (simp add: count_step_def)
    next
      case 2
      then show ?thesis using PStr Cons.IH [of a "b + 1" c] by (simp add: count_step_def)
    next
      case 3
      then show ?thesis using PStr Cons.IH [of a b "c + 1"] by (simp add: count_step_def)
    next
      case 4
      then show ?thesis using PStr Cons.IH [of a b c] by (simp add: count_step_def)
    qed
  next
    case (PInt n)
    then show ?thesis using Cons.IH [of a b c] by (simp add: count_step_def)
  next
    case PNone
    then show ?thesis using Cons.IH [of a b c] by (simp add: count_step_def)
  qed
qed

lemma effective_severity_eq:
  "effective_severity i = PStr ''warning'' \<longleftrightarrow>
     map_of i ''severity'' = None \<or> map_of i ''severity'' = Some (PStr ''warning'')"
  "effective_severity i = PStr ''info'' \<longleftrightarrow> map_of i ''severity'' = Some (PStr ''info'')"
  "effective_severity i = PStr ''error'' \<longleftrightarrow> map_of i ''severity'' = Some (PStr ''error'')"
  by (auto simp: effective_severity_def issue_get_def split: option.splits)

lemma count_issues_by_severity_eq:
  "count_issues_by_severity issues =
     [(''info'', length (filter (\<lambda>i. effective_severity i = PStr ''info'') issues)),
      (''warning'', length (filter (\<lambda>i. effective_severity i = PStr ''warning'') issues)),
      (''error'', length (filter (\<lambda>i. effective_severity i = PStr ''error'') issues))]"
  unfolding count_issues_by_severity_def by (simp add: foldl_count_step)

lemma three_way_count:
  "length (filter (\<lambda>i. f i = Some (PStr ''info'')) xs) +
   length (filter (\<lambda>i. f i = None \<or> f i = Some (PStr ''warning'')) xs) +
   length (filter (\<lambda>i. f i = Some (PStr ''error'')) xs) =
   length (filter (\<lambda>i. f i = None \<or> f i = Some (PStr ''info'') \<or>
                        f i = Some (PStr ''warning'') \<or> f i = Some (PStr ''error'')) xs)"
  by (induction xs) auto

text \<open>
  Claim C7, as amended. \<open>count_issues_by_severity\<close> returns one count per level: under
  info and error the issues whose \<open>severity\<close> is that level, under warning the issues whose
  \<open>severity\<close> is warning or unset. An issue whose \<open>severity\<close> is any other value is
  counted under no level (the source guards the increment with \<open>if severity in counts\<close>),
  so the three counts sum to the number of issues whose severity is unset or one of the
  three levels, which is at most the length of the list.
\<close>

theorem count_issues_by_severity_tally:
  "count_issues_by_severity issues =
     [(''info'', length (filter (\<lambda>i. map_of i ''severity'' = Some (PStr ''info'')) issues)),
      (''warning'', length (filter (\<lambda>i. map_of i ''severity'' = None \<or>
                                          map_of i ''severity'' = Some (PStr ''warning'')) issues)),
      (''error'', length (filter (\<lambda>i. map_of i ''severity'' = Some (PStr ''error'')) issues))] \<and>
   sum_list (map snd (count_issues_by_severity issues)) =
     length (filter (\<lambda>i. map_of i ''severity'' = None \<or>
                          map_of i ''severity'' = Some (PStr ''info'') \<or>
                          map_of i ''severity'' = Some (PStr ''warning'') \<or>
                          map_of i ''severity'' = Some (PStr ''error'')) issues) \<and>
   sum_list (map snd (count_issues_by_severity issues)) \<le> length issues"
proof -
  have eq: "count_issues_by_severity issues =
     [(''info'', length (filter (\<lambda>i. map_of i ''severity'' = Some (PStr ''info'')) issues)),
      (''warning'', length (filter (\<lambda>i. map_of i ''severity'' = None \<or>
                                          map_of i ''severity'' = Some (PStr ''warning'')) issues)),
      (''error'', length (filter (\<lambda>i. map_of i ''severity'' = Some (PStr ''error'')) issues))]"
    by (simp add: count_issues_by_severity_eq effective_severity_eq)
  have total: "sum_list (map snd (count_issues_by_severity issues)) =
     length (filter (\<lambda>i. map_of i ''severity'' = None \<or>
                          map_of i ''severity'' = Some (PStr ''info'') \<or>
                          map_of i ''severity'' = Some (PStr ''warning'') \<or>
                          map_of i ''severity'' = Some (PStr ''error'')) issues)"
    unfolding eq using three_way_count [of "\<lambda>i. map_of i ''severity''" issues] by simp
  have "sum_list (map snd (count_issues_by_severity issues)) \<le> length issues"
    unfolding total by (rule length_filter_le)
  with eq total show ?thesis by blast
qed

theorem count_issues_by_severity_tally_witness:
  "count_issues_by_severity
     [[(''row'', PInt 1)], [(''severity'', PStr ''critical'')], [(''severity'', PStr ''error'')]] =
     [(''info'', 0), (''warning'', 1), (''error'', 1)] \<and>
   sum_list (map snd (count_issues_by_severity
     [[(''row'', PInt 1)], [(''severity'', PStr ''critical'')], [(''severity'', PStr ''error'')]])) = 2"
  using count_issues_by_severity_tally
    [of "[[(''row'', PInt 1)], [(''severity'', PStr ''critical'')], [(''severity'', PStr ''error'')]]"]
  by simp

text \<open>
  The claim as first stated fails: one issue of severity \<open>critical\<close> is counted under no
  level, not under warning, and the counts sum to 0, not to the length 1 of the list.
\<close>

theorem count_issues_by_severity_unknown_counterexample:
  "count_issues_by_severity [[(''severity'', PStr ''critical'')]] =
     [(''info'', 0), (''warning'', 0), (''error'', 0)] \<and>
   sum_list (map snd (count_issues_by_severity [[(''severity'', PStr ''critical'')]])) \<noteq>
     length [[(''severity'', PStr ''critical'')]]"
  by (simp add: count_issues_by_severity_def count_step_def effective_severity_def issue_get_def)

subsection \<open>The exit code\<close>

text \<open>
  Claim C2. \<open>determine_exit_code\<close> returns 0 whenever \<open>total_records\<close> is 0, whatever
  the issues, the threshold and the flag. Otherwise, at each of the three thresholds, with
  \<open>blocking\<close> the issues the severity filter keeps, it returns 5 if \<open>blocking\<close> is not
  empty and \<open>--fail-on-warning\<close> is set, 10 if \<open>blocking\<close> is not empty and the flag is
  not set, and 0 if \<open>blocking\<close> is empty.
\<close>

theorem determine_exit_code_cases:
  "(total_records summ = 0 \<longrightarrow> determine_exit_code summ issues a = Inr 0) \<and>
   (total_records summ \<noteq> 0 \<and> severity_threshold a \<in> set [''info'', ''warning'', ''error'']
      \<longrightarrow> (\<exists>blocking.
            filter_issues_by_severity issues (severity_threshold a) = Inr blocking \<and>
            determine_exit_code summ issues a =
              Inr (if blocking \<noteq> [] \<and> fail_on_warning a then 5
                   else if blocking \<noteq> [] then 10 else 0)))"
proof (intro conjI impI)
  assume "total_records summ = 0"
  then show "determine_exit_code summ issues a = Inr 0"
    by (simp add: determine_exit_code_def EXIT_OK_def)
next
  assume h: "total_records summ \<noteq> 0 \<and>
    severity_threshold a \<in> set [''info'', ''warning'', ''error'']"
  then obtain r where r: "map_of SEVERITY_RANK (severity_threshold a) = Some r"
    using rank_of_level by blast
  show "\<exists>blocking.
          filter_issues_by_severity issues (severity_threshold a) = Inr blocking \<and>
          determine_exit_code summ issues a =
            Inr (if blocking \<noteq> [] \<and> fail_on_warning a then 5
                 else if blocking \<noteq> [] then 10 else 0)"
    using h
    by (simp add: determine_exit_code_def filter_issues_by_severity_Inr [OF r]
        EXIT_OK_def EXIT_WARNING_def EXIT_ISSUES_FOUND_def)
qed

theorem determine_exit_code_cases_witness:
  "total_records \<lparr> total_records = 0, total_issues = 1,
      severity_counts = [(''info'', 0), (''warning'', 1), (''error'', 0)] \<rparr> = 0 \<and>
   determine_exit_code
     \<lparr> total_records = 0, total_issues = 1,
       severity_counts = [(''info'', 0), (''warning'', 1), (''error'', 0)] \<rparr>
     [[(''severity'', PStr ''warning'')]]
     \<lparr> fail_on_warning = True, severity_threshold = ''info'' \<rparr> = Inr 0 \<and>
   determine_exit_code
     \<lparr> total_records = 2, total_issues = 1,
       severity_counts = [(''info'', 0), (''warning'', 1), (''error'', 0)] \<rparr>
     [[(''severity'', PStr ''warning'')]]
     \<lparr> fail_on_warning = True, severity_threshold = ''warning'' \<rparr> = Inr 5 \<and>
   determine_exit_code
     \<lparr> total_records = 2, total_issues = 1,
       severity_counts = [(''info'', 0), (''warning'', 1), (''error'', 0)] \<rparr>
     [[(''severity'', PStr ''warning'')]]
     \<lparr> fail_on_warning = False, severity_threshold = ''warning'' \<rparr> = Inr 10 \<and>
   determine_exit_code
     \<lparr> total_records = 2, total_issues = 1,
       severity_counts = [(''info'', 0), (''warning'', 1), (''error'', 0)] \<rparr>
     [[(''severity'', PStr ''warning'')]]
     \<lparr> fail_on_warning = True, severity_threshold = ''error'' \<rparr> = Inr 0"
proof -
  let ?s0 = "\<lparr> total_records = 0, total_issues = 1,
       severity_counts = [(''info'', 0), (''warning'', 1), (''error'', 0)] \<rparr>"
  let ?s2 = "\<lparr> total_records = 2, total_issues = 1,
       severity_counts = [(''info'', 0), (''warning'', 1), (''error'', 0)] \<rparr>"
  let ?issues = "[[(''severity'', PStr ''warning'')]] :: issue list"
  have w: "filter_issues_by_severity ?issues ''warning'' = Inr ?issues"
    and e: "filter_issues_by_severity ?issues ''error'' = Inr []"
    by (simp_all add: filter_issues_by_severity_def SEVERITY_RANK_def rank_get_def
        effective_severity_def issue_get_def)
  have z: "total_records ?s0 = 0" by simp
  from determine_exit_code_cases
    [of ?s0 ?issues "\<lparr> fail_on_warning = True, severity_threshold = ''info'' \<rparr>"]
  have a: "determine_exit_code ?s0 ?issues
      \<lparr> fail_on_warning = True, severity_threshold = ''info'' \<rparr> = Inr 0"
    by simp
  from determine_exit_code_cases
    [of ?s2 ?issues "\<lparr> fail_on_warning = True, severity_threshold = ''warning'' \<rparr>"] w
  have b: "determine_exit_code ?s2 ?issues
      \<lparr> fail_on_warning = True, severity_threshold = ''warning'' \<rparr> = Inr 5"
    by simp
  from determine_exit_code_cases
    [of ?s2 ?issues "\<lparr> fail_on_warning = False, severity_threshold = ''warning'' \<rparr>"] w
  have c: "determine_exit_code ?s2 ?issues
      \<lparr> fail_on_warning = False, severity_threshold = ''warning'' \<rparr> = Inr 10"
    by simp
  from determine_exit_code_cases
    [of ?s2 ?issues "\<lparr> fail_on_warning = True, severity_threshold = ''error'' \<rparr>"] e
  have d: "determine_exit_code ?s2 ?issues
      \<lparr> fail_on_warning = True, severity_threshold = ''error'' \<rparr> = Inr 0"
    by simp
  from z a b c d show ?thesis by blast
qed

section \<open>Properties of the validators\<close>

subsection \<open>The loop over the records\<close>

text \<open>
  Every body tags the issues of an iteration with the index of that iteration, so the
  issues of one record are those whose \<open>row\<close> is the record's position.
\<close>

lemma for_enumerate_rows:
  assumes "for_enumerate body idx records = Inr issues"
    and "issue \<in> set issues"
    and tagged: "\<And>j r found x. body j r = Inr found \<Longrightarrow> x \<in> set found \<Longrightarrow>
                  map_of x ''row'' = Some (PInt (int j))"
  shows "\<exists>j. idx \<le> j \<and> j < idx + length records \<and> map_of issue ''row'' = Some (PInt (int j))"
  using assms(1,2)
proof (induction records arbitrary: idx issues)
  case Nil
  then show ?case by simp
next
  case (Cons r rest)
  from Cons.prems(1) obtain found later where
    f: "body idx r = Inr found" and l: "for_enumerate body (Suc idx) rest = Inr later"
    and i: "issues = found @ later"
    by (auto split: sum.splits)
  from Cons.prems(2) i consider "issue \<in> set found" | "issue \<in> set later" by auto
  then show ?case
  proof cases
    case 1
    with tagged [OF f] have "map_of issue ''row'' = Some (PInt (int idx))" by blast
    then show ?thesis by (intro exI [of _ idx]) simp
  next
    case 2
    from Cons.IH [OF l 2] obtain j where
      "Suc idx \<le> j" "j < Suc idx + length rest" "map_of issue ''row'' = Some (PInt (int j))"
      by blast
    then show ?thesis by (intro exI [of _ j]) simp
  qed
qed

lemma for_enumerate_row:
  assumes "for_enumerate body idx records = Inr issues"
    and "i < length records"
    and tagged: "\<And>j r found x. body j r = Inr found \<Longrightarrow> x \<in> set found \<Longrightarrow>
                  map_of x ''row'' = Some (PInt (int j))"
  shows "\<exists>found. body (idx + i) (records ! i) = Inr found \<and>
           filter (\<lambda>issue. map_of issue ''row'' = Some (PInt (int (idx + i)))) issues = found"
  using assms(1,2)
proof (induction records arbitrary: idx issues i)
  case Nil
  then show ?case by simp
next
  case (Cons r rest)
  from Cons.prems(1) obtain found later where
    f: "body idx r = Inr found" and l: "for_enumerate body (Suc idx) rest = Inr later"
    and iss: "issues = found @ later"
    by (auto split: sum.splits)
  show ?case
  proof (cases i)
    case 0
    have a: "filter (\<lambda>issue. map_of issue ''row'' = Some (PInt (int idx))) found = found"
      using tagged [OF f] by (simp add: filter_id_conv)
    have b: "filter (\<lambda>issue. map_of issue ''row'' = Some (PInt (int idx))) later = []"
    proof -
      have "\<And>x. x \<in> set later \<Longrightarrow> map_of x ''row'' \<noteq> Some (PInt (int idx))"
      proof -
        fix x assume "x \<in> set later"
        then have "\<exists>j. Suc idx \<le> j \<and> j < Suc idx + length rest \<and>
            map_of x ''row'' = Some (PInt (int j))"
          by (rule for_enumerate_rows [OF l]) (rule tagged)
        then obtain j where
          "Suc idx \<le> j" "map_of x ''row'' = Some (PInt (int j))" by blast
        then show "map_of x ''row'' \<noteq> Some (PInt (int idx))" by simp
      qed
      then show ?thesis by (simp add: filter_empty_conv)
    qed
    from 0 f a b iss show ?thesis by simp
  next
    case (Suc k)
    with Cons.prems(2) have k: "k < length rest" by simp
    from Cons.IH [OF l k] obtain found' where
      f': "body (Suc idx + k) (rest ! k) = Inr found'"
      and e: "filter (\<lambda>issue. map_of issue ''row'' = Some (PInt (int (Suc idx + k)))) later = found'"
      by blast
    have "filter (\<lambda>issue. map_of issue ''row'' = Some (PInt (int (Suc idx + k)))) found = []"
      using tagged [OF f] by (auto simp: filter_empty_conv)
    with Suc f' e iss show ?thesis by simp
  qed
qed

lemma for_enumerate_total:
  assumes "\<And>r j. r \<in> set records \<Longrightarrow> \<exists>found. body j r = Inr found"
  shows "\<exists>issues. for_enumerate body idx records = Inr issues"
  using assms
proof (induction records arbitrary: idx)
  case Nil
  then show ?case by simp
next
  case (Cons r rest)
  from Cons.prems [of r idx] obtain found where f: "body idx r = Inr found" by auto
  from Cons.IH [of "Suc idx"] Cons.prems obtain later where
    "for_enumerate body (Suc idx) rest = Inr later" by auto
  with f show ?case by simp
qed

lemma for_enumerate_cong_rows:
  assumes "length records' = length records"
    and "\<And>i j. i < length records \<Longrightarrow> body j (records' ! i) = body j (records ! i)"
  shows "for_enumerate body idx records' = for_enumerate body idx records"
  using assms
proof (induction records arbitrary: idx records')
  case Nil
  then show ?case by simp
next
  case (Cons r rest)
  from Cons.prems(1) obtain r' rest' where r': "records' = r' # rest'" "length rest' = length rest"
    by (cases records') auto
  have h: "body idx r' = body idx r" using Cons.prems(2) [of 0 idx] r' by simp
  have "for_enumerate body (Suc idx) rest' = for_enumerate body (Suc idx) rest"
  proof (rule Cons.IH [OF r'(2)])
    fix i j assume "i < length rest"
    then show "body j (rest' ! i) = body j (rest ! i)"
      using Cons.prems(2) [of "Suc i" j] r' by simp
  qed
  with h r' show ?case by (simp split: sum.splits)
qed

lemma for_enumerate_update:
  assumes "i < length records" and "\<And>j. body j r' = body j (records ! i)"
  shows "for_enumerate body idx (records[i := r']) = for_enumerate body idx records"
proof (rule for_enumerate_cong_rows)
  show "length (records[i := r']) = length records" by simp
next
  fix k j assume "k < length records"
  then show "body j (records[i := r'] ! k) = body j (records ! k)"
    using assms by (cases "k = i") simp_all
qed

lemma for_enumerate_all:
  assumes "for_enumerate body idx records = Inr issues"
    and "x \<in> set issues"
    and "\<And>j r found y. body j r = Inr found \<Longrightarrow> y \<in> set found \<Longrightarrow> P y"
  shows "P x"
  using assms(1,2)
proof (induction records arbitrary: idx issues)
  case Nil
  then show ?case by simp
next
  case (Cons r rest)
  from Cons.prems(1) obtain found later where
    f: "body idx r = Inr found" and l: "for_enumerate body (Suc idx) rest = Inr later"
    and i: "issues = found @ later"
    by (auto split: sum.splits)
  from Cons.prems(2) i consider "x \<in> set found" | "x \<in> set later" by auto
  then show ?case
  proof cases
    case 1
    with assms(3) [OF f] show ?thesis .
  next
    case 2
    with Cons.IH [OF l] show ?thesis .
  qed
qed

lemma emails_tagged:
  "check_invalid_emails_body j r = Inr found \<Longrightarrow> x \<in> set found \<Longrightarrow>
   map_of x ''row'' = Some (PInt (int j))"
  by (auto simp: check_invalid_emails_body_def split: sum.splits if_splits list.splits)

lemma ages_tagged:
  "check_invalid_ages_body env j r = Inr found \<Longrightarrow> x \<in> set found \<Longrightarrow>
   map_of x ''row'' = Some (PInt (int j))"
  by (auto simp: check_invalid_ages_body_def split: sum.splits if_splits)

lemma countries_tagged:
  "check_invalid_countries_body env j r = Inr found \<Longrightarrow> x \<in> set found \<Longrightarrow>
   map_of x ''row'' = Some (PInt (int j))"
  by (auto simp: check_invalid_countries_body_def Let_def split: sum.splits if_splits)

lemma dates_tagged:
  "check_invalid_signup_dates_body env j r = Inr found \<Longrightarrow> x \<in> set found \<Longrightarrow>
   map_of x ''row'' = Some (PInt (int j))"
  by (auto simp: check_invalid_signup_dates_body_def split: sum.splits if_splits option.splits)

subsection \<open>Which validators return\<close>

text \<open>
  The email, country and signup-date validators return on every record list whose fields
  hold strings (the country validator also on \<open>None\<close>). The age validator does not, as
  the end of this subsection shows.
\<close>

lemma split_char_length: "length (split_char sep s) = Suc (count_list s sep)"
  by (induction s) (auto split: list.splits)

lemma split_char_two:
  assumes "count_list s sep = 1"
  shows "\<exists>local_part domain. split_char sep s = [local_part, domain]"
proof -
  have "length (split_char sep s) = 2" using assms by (simp add: split_char_length)
  then show ?thesis by (auto simp: length_Suc_conv numeral_2_eq_2)
qed

lemma emails_body_string:
  assumes "record_get r ''email'' (PStr []) = PStr s"
  shows "\<exists>found. check_invalid_emails_body j r = Inr found"
proof (cases "count_list (strip s) CHR ''@'' = 1")
  case True
  then obtain local_part domain where
    "split_char CHR ''@'' (strip s) = [local_part, domain]"
    using split_char_two by blast
  then show ?thesis
    using assms by (simp add: check_invalid_emails_body_def py_strip_def)
next
  case False
  then show ?thesis
    using assms by (simp add: check_invalid_emails_body_def py_strip_def)
qed

lemma check_invalid_emails_total:
  assumes "\<And>record. record \<in> set records \<Longrightarrow>
             \<exists>v. record_get record ''email'' (PStr []) = PStr v"
  shows "\<exists>issues. check_invalid_emails records = Inr issues"
  unfolding check_invalid_emails_def
proof (rule for_enumerate_total)
  fix r j assume "r \<in> set records"
  from assms [OF this] obtain v where "record_get r ''email'' (PStr []) = PStr v" ..
  then show "\<exists>found. check_invalid_emails_body j r = Inr found"
    by (rule emails_body_string)
qed

lemma resolve_country_no_int:
  assumes "\<And>n. v \<noteq> PInt n"
  shows "\<exists>resolved. resolve_country env v = Inr resolved"
  using assms by (cases v) (auto simp: resolve_country_def py_strip_def truthy_def Let_def)

lemma countries_body_no_int:
  assumes "\<And>n. r ''country'' \<noteq> Some (PInt n)"
  shows "\<exists>found. check_invalid_countries_body env j r = Inr found"
proof -
  have "\<And>n. record_get r ''country'' PNone \<noteq> PInt n"
    using assms by (auto simp: record_get_def split: option.splits)
  then obtain resolved where
    "resolve_country env (record_get r ''country'' PNone) = Inr resolved"
    using resolve_country_no_int by blast
  then show ?thesis by (simp add: check_invalid_countries_body_def)
qed

lemma check_invalid_countries_total:
  assumes "\<And>record n. record \<in> set records \<Longrightarrow> record ''country'' \<noteq> Some (PInt n)"
  shows "\<exists>issues. check_invalid_countries env records = Inr issues"
  unfolding check_invalid_countries_def
  by (rule for_enumerate_total) (rule countries_body_no_int, rule assms)

lemma strptime_error: "strptime s fmt = Inl e \<Longrightarrow> e = ValueError"
  by (auto simp: strptime_def Let_def split: option.splits if_splits prod.splits)

lemma parse_first_total: "\<exists>parsed. parse_first s fmts = Inr parsed"
  by (induction fmts) (auto split: sum.splits dest: strptime_error)

lemma parse_first_accepted:
  "parse_first s accepted_formats =
     Inr (case strptime s [Dir_d, Slash, Dir_m, Slash, Dir_Y] of
            Inr d \<Rightarrow> Some d
          | Inl _ \<Rightarrow>
              (case strptime s [Dir_y, Slash, Dir_m, Slash, Dir_d] of
                 Inr d \<Rightarrow> Some d
               | Inl _ \<Rightarrow> None))"
  by (auto simp: accepted_formats_def split: sum.splits dest: strptime_error)

lemma dates_body_string:
  assumes "record_get r ''signup_date'' (PStr []) = PStr s"
  shows "\<exists>found. check_invalid_signup_dates_body env j r = Inr found"
proof -
  obtain parsed where "parse_first (strip s) accepted_formats = Inr parsed"
    using parse_first_total by blast
  then show ?thesis
    using assms
    by (cases parsed) (simp_all add: check_invalid_signup_dates_body_def py_strip_def)
qed

lemma check_invalid_signup_dates_total:
  assumes "\<And>record. record \<in> set records \<Longrightarrow>
             \<exists>v. record_get record ''signup_date'' (PStr []) = PStr v"
  shows "\<exists>issues. check_invalid_signup_dates env records = Inr issues"
  unfolding check_invalid_signup_dates_def
proof (rule for_enumerate_total)
  fix r j assume "r \<in> set records"
  from assms [OF this] obtain v where "record_get r ''signup_date'' (PStr []) = PStr v" ..
  then show "\<exists>found. check_invalid_signup_dates_body env j r = Inr found"
    by (rule dates_body_string)
qed

text \<open>
  Claim C1 says that no validator raises on malformed field data, and that \<open>int(age_raw)\<close>
  cannot fail on a value that reaches it. The age validator guards \<open>int\<close> with
  \<open>age_raw.isdigit()\<close>, which also holds for digits that are not decimal: on the record
  list of the one record whose \<open>age\<close> is the character U+00B2 (superscript two) the guard
  passes, \<open>int\<close> raises \<open>ValueError\<close>, and so does \<open>check_invalid_ages\<close>, whatever
  the environment.
\<close>

theorem check_invalid_ages_raises:
  "check_invalid_ages env [[''age'' \<mapsto> PStr [CHR 0xB2]]] = Inl ValueError \<and>
   isdigit [CHR 0xB2] \<and>
   py_int (int_max_str_digits env) [CHR 0xB2] = Inl ValueError"
  by (simp add: check_invalid_ages_def check_invalid_ages_body_def record_get_def py_strip_def
      strip_def isspace_def isdigit_def isdigit_char_def is_decimal_def in_range_def py_int_def
      int_space_def Let_def)

subsection \<open>Email\<close>

text \<open>
  Claim C3 says that an email with no or several \<open>@\<close> gives one issue whose reason is
  \<open>missing or multiple @\<close>. On the record \<open>{"email": "bob@@x.com"}\<close> the validator gives
  one issue, of field \<open>email\<close> and severity \<open>warning\<close>, but it stores the text under the
  key \<open>issue\<close>: the issue has no \<open>reason\<close>.
\<close>

theorem check_invalid_emails_at_sign_key:
  "check_invalid_emails [[''email'' \<mapsto> PStr ''bob@@x.com'']] =
     Inr [[(''row'', PInt 1), (''field'', PStr ''email''), (''value'', PStr ''bob@@x.com''),
           (''issue'', PStr ''missing or multiple @''), (''severity'', PStr ''warning'')]] \<and>
   map_of [(''row'', PInt 1), (''field'', PStr ''email''), (''value'', PStr ''bob@@x.com''),
           (''issue'', PStr ''missing or multiple @''), (''severity'', PStr ''warning'')]
     ''reason'' = None"
  by code_simp

subsection \<open>Absent fields\<close>

lemma emails_body_absent:
  "r ''email'' = None \<Longrightarrow>
   check_invalid_emails_body j (r(''email'' \<mapsto> PStr [])) = check_invalid_emails_body j r"
  by (simp add: check_invalid_emails_body_def record_get_def)

lemma ages_body_absent:
  "r ''age'' = None \<Longrightarrow>
   check_invalid_ages_body env j (r(''age'' \<mapsto> PStr [])) = check_invalid_ages_body env j r"
  by (simp add: check_invalid_ages_body_def record_get_def)

lemma dates_body_absent:
  "r ''signup_date'' = None \<Longrightarrow>
   check_invalid_signup_dates_body env j (r(''signup_date'' \<mapsto> PStr [])) =
   check_invalid_signup_dates_body env j r"
  by (simp add: check_invalid_signup_dates_body_def record_get_def)

lemma countries_body_found:
  assumes "check_invalid_countries_body env j r = Inr found"
  shows "found =
           (if resolve_country env (record_get r ''country'' PNone) = Inr None \<or>
               resolve_country env (record_get r ''country'' PNone) = Inr (Some [])
            then [[(''row'', PInt (int j)), (''field'', PStr ''country''),
                   (''value'', record_get r ''country'' PNone),
                   (''reason'', PStr ''country missing or null''),
                   (''severity'', PStr ''warning'')]]
            else [])"
  using assms
  by (auto simp: check_invalid_countries_body_def Let_def split: sum.splits if_splits)

lemma countries_row:
  assumes "check_invalid_countries env records = Inr issues" and "i < length records"
  shows "filter (\<lambda>issue. map_of issue ''row'' = Some (PInt (int i + 1))) issues =
           (if resolve_country env (record_get (records ! i) ''country'' PNone) = Inr None \<or>
               resolve_country env (record_get (records ! i) ''country'' PNone) = Inr (Some [])
            then [[(''row'', PInt (int i + 1)), (''field'', PStr ''country''),
                   (''value'', record_get (records ! i) ''country'' PNone),
                   (''reason'', PStr ''country missing or null''),
                   (''severity'', PStr ''warning'')]]
            else [])"
proof -
  have "\<exists>found. check_invalid_countries_body env (1 + i) (records ! i) = Inr found \<and>
          filter (\<lambda>issue. map_of issue ''row'' = Some (PInt (int (1 + i)))) issues = found"
    by (rule for_enumerate_row [OF assms(1) [unfolded check_invalid_countries_def] assms(2)])
      (rule countries_tagged)
  then obtain found where
    body: "check_invalid_countries_body env (1 + i) (records ! i) = Inr found"
    and row: "filter (\<lambda>issue. map_of issue ''row'' = Some (PInt (int (1 + i)))) issues = found"
    by blast
  have ii: "int (1 + i) = int i + 1" by simp
  from countries_body_found [OF body] row show ?thesis
    unfolding ii by simp
qed

text \<open>
  Claim C5, as amended. The email, age and signup-date validators read their field with
  \<open>record.get(field, "")\<close>, so for each of them a record in which the field is absent is
  treated as the same record with the field set to the empty string: storing the empty
  string in place of the absent field leaves the validator's result as it is. The country
  validator reads \<open>record.get("country")\<close>, with no default. The issue it gives for a
  record whose country does not resolve carries as value what that read returns, as it is:
  the stored value, neither trimmed nor upper-cased, or \<open>None\<close> when the field is absent.
\<close>

theorem absent_field_handling:
  assumes "i < length records"
  shows "((records ! i) ''email'' = None \<longrightarrow>
            check_invalid_emails (records[i := (records ! i)(''email'' \<mapsto> PStr [])]) =
            check_invalid_emails records) \<and>
         ((records ! i) ''age'' = None \<longrightarrow>
            check_invalid_ages env (records[i := (records ! i)(''age'' \<mapsto> PStr [])]) =
            check_invalid_ages env records) \<and>
         ((records ! i) ''signup_date'' = None \<longrightarrow>
            check_invalid_signup_dates env
              (records[i := (records ! i)(''signup_date'' \<mapsto> PStr [])]) =
            check_invalid_signup_dates env records) \<and>
         (check_invalid_countries env records = Inr issues \<longrightarrow>
            filter (\<lambda>issue. map_of issue ''row'' = Some (PInt (int i + 1))) issues =
              (let raw_country = (case (records ! i) ''country'' of None \<Rightarrow> PNone | Some v \<Rightarrow> v)
               in if resolve_country env raw_country = Inr None \<or>
                     resolve_country env raw_country = Inr (Some [])
                  then [[(''row'', PInt (int i + 1)), (''field'', PStr ''country''),
                         (''value'', raw_country),
                         (''reason'', PStr ''country missing or null''),
                         (''severity'', PStr ''warning'')]]
                  else []))"
proof (intro conjI impI)
  assume "(records ! i) ''email'' = None"
  then show "check_invalid_emails (records[i := (records ! i)(''email'' \<mapsto> PStr [])]) =
             check_invalid_emails records"
    unfolding check_invalid_emails_def
    by (intro for_enumerate_update assms emails_body_absent)
next
  assume "(records ! i) ''age'' = None"
  then show "check_invalid_ages env (records[i := (records ! i)(''age'' \<mapsto> PStr [])]) =
             check_invalid_ages env records"
    unfolding check_invalid_ages_def
    by (intro for_enumerate_update assms ages_body_absent)
next
  assume "(records ! i) ''signup_date'' = None"
  then show "check_invalid_signup_dates env
               (records[i := (records ! i)(''signup_date'' \<mapsto> PStr [])]) =
             check_invalid_signup_dates env records"
    unfolding check_invalid_signup_dates_def
    by (intro for_enumerate_update assms dates_body_absent)
next
  assume "check_invalid_countries env records = Inr issues"
  from countries_row [OF this assms]
  show "filter (\<lambda>issue. map_of issue ''row'' = Some (PInt (int i + 1))) issues =
          (let raw_country = (case (records ! i) ''country'' of None \<Rightarrow> PNone | Some v \<Rightarrow> v)
           in if resolve_country env raw_country = Inr None \<or>
                 resolve_country env raw_country = Inr (Some [])
              then [[(''row'', PInt (int i + 1)), (''field'', PStr ''country''),
                     (''value'', raw_country),
                     (''reason'', PStr ''country missing or null''),
                     (''severity'', PStr ''warning'')]]
              else [])"
    by (simp add: record_get_def Let_def)
qed

theorem absent_field_handling_witness:
  "(0::nat) < length [Map.empty :: record_row] \<and>
   check_invalid_emails [[''email'' \<mapsto> PStr []]] = check_invalid_emails [Map.empty] \<and>
   check_invalid_ages \<lparr> int_max_str_digits = 4300, countries_lookup = (\<lambda>raw. None),
       today = \<lparr> year = 2026, month = 11, day = 4 \<rparr> \<rparr> [[''age'' \<mapsto> PStr []]] =
     check_invalid_ages \<lparr> int_max_str_digits = 4300, countries_lookup = (\<lambda>raw. None),
       today = \<lparr> year = 2026, month = 11, day = 4 \<rparr> \<rparr> [Map.empty] \<and>
   check_invalid_signup_dates \<lparr> int_max_str_digits = 4300, countries_lookup = (\<lambda>raw. None),
       today = \<lparr> year = 2026, month = 11, day = 4 \<rparr> \<rparr> [[''signup_date'' \<mapsto> PStr []]] =
     check_invalid_signup_dates \<lparr> int_max_str_digits = 4300, countries_lookup = (\<lambda>raw. None),
       today = \<lparr> year = 2026, month = 11, day = 4 \<rparr> \<rparr> [Map.empty] \<and>
   check_invalid_countries \<lparr> int_max_str_digits = 4300, countries_lookup = (\<lambda>raw. None),
       today = \<lparr> year = 2026, month = 11, day = 4 \<rparr> \<rparr> [[''country'' \<mapsto> PStr ''Atlantis '']] =
     Inr [[(''row'', PInt 1), (''field'', PStr ''country''), (''value'', PStr ''Atlantis ''),
           (''reason'', PStr ''country missing or null''), (''severity'', PStr ''warning'')]] \<and>
   filter (\<lambda>issue. map_of issue ''row'' = Some (PInt 1))
     [[(''row'', PInt 1), (''field'', PStr ''country''), (''value'', PStr ''Atlantis ''),
       (''reason'', PStr ''country missing or null''), (''severity'', PStr ''warning'')]] =
     [[(''row'', PInt 1), (''field'', PStr ''country''), (''value'', PStr ''Atlantis ''),
       (''reason'', PStr ''country missing or null''), (''severity'', PStr ''warning'')]]"
proof -
  let ?env = "\<lparr> int_max_str_digits = 4300, countries_lookup = (\<lambda>raw. None),
       today = \<lparr> year = 2026, month = 11, day = 4 \<rparr> \<rparr>"
  let ?issue = "[(''row'', PInt 1), (''field'', PStr ''country''), (''value'', PStr ''Atlantis ''),
       (''reason'', PStr ''country missing or null''), (''severity'', PStr ''warning'')]"
  have len: "(0::nat) < length [Map.empty :: record_row]" by simp
  have len': "(0::nat) < length [[''country'' \<mapsto> PStr ''Atlantis ''] :: record_row]" by simp
  have c: "check_invalid_countries ?env [[''country'' \<mapsto> PStr ''Atlantis '']] = Inr [?issue]"
    by code_simp
  have r: "resolve_country ?env (PStr ''Atlantis '') = Inr None"
    by code_simp
  from absent_field_handling [OF len, of ?env]
  have a: "check_invalid_emails [[''email'' \<mapsto> PStr []]] = check_invalid_emails [Map.empty]"
    and b: "check_invalid_ages ?env [[''age'' \<mapsto> PStr []]] = check_invalid_ages ?env [Map.empty]"
    and d: "check_invalid_signup_dates ?env [[''signup_date'' \<mapsto> PStr []]] =
            check_invalid_signup_dates ?env [Map.empty]"
    by simp_all
  from absent_field_handling [OF len', of ?env "[?issue]"] c r
  have e: "filter (\<lambda>issue. map_of issue ''row'' = Some (PInt 1)) [?issue] = [?issue]"
    by simp
  from len a b c d e show ?thesis by blast
qed

text \<open>
  The claim as first stated fails for the country validator: a record without the field
  gives an issue of value \<open>None\<close>, a record whose field is the empty string gives an issue
  of value \<open>""\<close>, so the two are not treated identically.
\<close>

theorem absent_country_counterexample:
  "check_invalid_countries \<lparr> int_max_str_digits = 4300, countries_lookup = (\<lambda>raw. None),
       today = \<lparr> year = 2026, month = 11, day = 4 \<rparr> \<rparr> [Map.empty] =
     Inr [[(''row'', PInt 1), (''field'', PStr ''country''), (''value'', PNone),
           (''reason'', PStr ''country missing or null''), (''severity'', PStr ''warning'')]] \<and>
   check_invalid_countries \<lparr> int_max_str_digits = 4300, countries_lookup = (\<lambda>raw. None),
       today = \<lparr> year = 2026, month = 11, day = 4 \<rparr> \<rparr> [[''country'' \<mapsto> PStr []]] =
     Inr [[(''row'', PInt 1), (''field'', PStr ''country''), (''value'', PStr []),
           (''reason'', PStr ''country missing or null''), (''severity'', PStr ''warning'')]] \<and>
   check_invalid_countries \<lparr> int_max_str_digits = 4300, countries_lookup = (\<lambda>raw. None),
       today = \<lparr> year = 2026, month = 11, day = 4 \<rparr> \<rparr> [Map.empty] \<noteq>
   check_invalid_countries \<lparr> int_max_str_digits = 4300, countries_lookup = (\<lambda>raw. None),
       today = \<lparr> year = 2026, month = 11, day = 4 \<rparr> \<rparr> [[''country'' \<mapsto> PStr []]]"
  by code_simp

subsection \<open>Signup date\<close>

text \<open>
  Claim C8. Take a record list whose \<open>signup_date\<close> fields are strings or absent, and in
  it a record whose \<open>signup_date\<close> is not empty after trimming. The validator returns, and
  it tries the format DD/MM/YYYY, then YY/MM/DD, keeping the first that parses. When neither
  parses, the issues of that record are the single issue \<open>Invalid date format\<close>; when one
  parses and the date is after today, they are the single issue
  \<open>signup_date is in the future\<close>; otherwise the record has no issue.
\<close>

theorem check_invalid_signup_dates_row:
  assumes strings: "\<And>record. record \<in> set records \<Longrightarrow>
             \<exists>v. record_get record ''signup_date'' (PStr []) = PStr v"
    and i: "i < length records"
    and s: "record_get (records ! i) ''signup_date'' (PStr []) = PStr s"
    and nonempty: "strip s \<noteq> []"
  shows "\<exists>issues parsed.
           check_invalid_signup_dates env records = Inr issues \<and>
           parse_first (strip s) accepted_formats = Inr parsed \<and>
           parsed =
             (case strptime (strip s) [Dir_d, Slash, Dir_m, Slash, Dir_Y] of
                Inr d \<Rightarrow> Some d
              | Inl _ \<Rightarrow>
                  (case strptime (strip s) [Dir_y, Slash, Dir_m, Slash, Dir_d] of
                     Inr d \<Rightarrow> Some d
                   | Inl _ \<Rightarrow> None)) \<and>
           filter (\<lambda>issue. map_of issue ''row'' = Some (PInt (int i + 1))) issues =
             (case parsed of
                None \<Rightarrow>
                  [[(''row'', PInt (int i + 1)), (''field'', PStr ''signup_date''),
                    (''value'', PStr (strip s)), (''reason'', PStr ''Invalid date format''),
                    (''severity'', PStr ''warning'')]]
              | Some d \<Rightarrow>
                  if date_less (today env) d then
                    [[(''row'', PInt (int i + 1)), (''field'', PStr ''signup_date''),
                      (''value'', PStr (strip s)),
                      (''reason'', PStr ''signup_date is in the future''),
                      (''severity'', PStr ''warning'')]]
                  else [])"
proof -
  have "\<exists>issues. check_invalid_signup_dates env records = Inr issues"
    by (rule check_invalid_signup_dates_total) (rule strings)
  then obtain issues where
    issues: "for_enumerate (check_invalid_signup_dates_body env) 1 records = Inr issues"
    unfolding check_invalid_signup_dates_def ..
  have "\<exists>found. check_invalid_signup_dates_body env (1 + i) (records ! i) = Inr found \<and>
          filter (\<lambda>issue. map_of issue ''row'' = Some (PInt (int (1 + i)))) issues = found"
    by (rule for_enumerate_row [OF issues i]) (rule dates_tagged)
  then obtain found where
    body: "check_invalid_signup_dates_body env (1 + i) (records ! i) = Inr found"
    and row: "filter (\<lambda>issue. map_of issue ''row'' = Some (PInt (int (1 + i)))) issues = found"
    by blast
  define parsed where "parsed =
    (case strptime (strip s) [Dir_d, Slash, Dir_m, Slash, Dir_Y] of
       Inr d \<Rightarrow> Some d
     | Inl _ \<Rightarrow>
         (case strptime (strip s) [Dir_y, Slash, Dir_m, Slash, Dir_d] of
            Inr d \<Rightarrow> Some d
          | Inl _ \<Rightarrow> None))"
  have p: "parse_first (strip s) accepted_formats = Inr parsed"
    unfolding parsed_def by (rule parse_first_accepted)
  have ii: "int (1 + i) = int i + 1" by simp
  have "check_invalid_signup_dates_body env (1 + i) (records ! i) =
          Inr (case parsed of
             None \<Rightarrow>
               [[(''row'', PInt (int i + 1)), (''field'', PStr ''signup_date''),
                 (''value'', PStr (strip s)), (''reason'', PStr ''Invalid date format''),
                 (''severity'', PStr ''warning'')]]
           | Some d \<Rightarrow>
               if date_less (today env) d then
                 [[(''row'', PInt (int i + 1)), (''field'', PStr ''signup_date''),
                   (''value'', PStr (strip s)),
                   (''reason'', PStr ''signup_date is in the future''),
                   (''severity'', PStr ''warning'')]]
               else [])"
    by (simp add: check_invalid_signup_dates_body_def s py_strip_def p nonempty
        split: option.splits)
  with body have "found =
          (case parsed of
             None \<Rightarrow>
               [[(''row'', PInt (int i + 1)), (''field'', PStr ''signup_date''),
                 (''value'', PStr (strip s)), (''reason'', PStr ''Invalid date format''),
                 (''severity'', PStr ''warning'')]]
           | Some d \<Rightarrow>
               if date_less (today env) d then
                 [[(''row'', PInt (int i + 1)), (''field'', PStr ''signup_date''),
                   (''value'', PStr (strip s)),
                   (''reason'', PStr ''signup_date is in the future''),
                   (''severity'', PStr ''warning'')]]
               else [])"
    by simp
  with issues row p parsed_def show ?thesis
    unfolding check_invalid_signup_dates_def ii by blast
qed

theorem check_invalid_signup_dates_row_witness:
  "check_invalid_signup_dates
     \<lparr> int_max_str_digits = 4300, countries_lookup = (\<lambda>raw. None),
       today = \<lparr> year = 2026, month = 11, day = 4 \<rparr> \<rparr>
     [[''signup_date'' \<mapsto> PStr ''31/01/2099''], [''signup_date'' \<mapsto> PStr '' 2020-01-31 '']] =
     Inr [[(''row'', PInt 1), (''field'', PStr ''signup_date''), (''value'', PStr ''31/01/2099''),
           (''reason'', PStr ''signup_date is in the future''), (''severity'', PStr ''warning'')],
          [(''row'', PInt 2), (''field'', PStr ''signup_date''), (''value'', PStr ''2020-01-31''),
           (''reason'', PStr ''Invalid date format''), (''severity'', PStr ''warning'')]] \<and>
   parse_first ''31/01/2099'' accepted_formats = Inr (Some \<lparr> year = 2099, month = 1, day = 31 \<rparr>) \<and>
   parse_first ''2020-01-31'' accepted_formats = Inr None"
proof -
  let ?env = "\<lparr> int_max_str_digits = 4300, countries_lookup = (\<lambda>raw. None),
       today = \<lparr> year = 2026, month = 11, day = 4 \<rparr> \<rparr>"
  let ?records = "[[''signup_date'' \<mapsto> PStr ''31/01/2099''],
                   [''signup_date'' \<mapsto> PStr '' 2020-01-31 '']] :: record_row list"
  have strings: "\<And>record. record \<in> set ?records \<Longrightarrow>
      \<exists>v. record_get record ''signup_date'' (PStr []) = PStr v"
    by (auto simp: record_get_def)
  have i0: "(0::nat) < length ?records" and i1: "(1::nat) < length ?records" by simp_all
  have g0: "record_get (?records ! 0) ''signup_date'' (PStr []) = PStr ''31/01/2099''"
    and g1: "record_get (?records ! 1) ''signup_date'' (PStr []) = PStr '' 2020-01-31 ''"
    by (simp_all add: record_get_def)
  have s0: "strip ''31/01/2099'' = ''31/01/2099''" and s1: "strip '' 2020-01-31 '' = ''2020-01-31''"
    by code_simp+
  have n0: "strip ''31/01/2099'' \<noteq> []" and n1: "strip '' 2020-01-31 '' \<noteq> []"
    unfolding s0 s1 by simp_all
  have c: "check_invalid_signup_dates ?env ?records =
     Inr [[(''row'', PInt 1), (''field'', PStr ''signup_date''), (''value'', PStr ''31/01/2099''),
           (''reason'', PStr ''signup_date is in the future''), (''severity'', PStr ''warning'')],
          [(''row'', PInt 2), (''field'', PStr ''signup_date''), (''value'', PStr ''2020-01-31''),
           (''reason'', PStr ''Invalid date format''), (''severity'', PStr ''warning'')]]"
    by code_simp
  from check_invalid_signup_dates_row [of ?records 0 "''31/01/2099''" ?env, OF strings i0 g0 n0]
  obtain issues0 parsed0 where
    "parse_first ''31/01/2099'' accepted_formats = Inr parsed0"
    "parsed0 = (case strptime ''31/01/2099'' [Dir_d, Slash, Dir_m, Slash, Dir_Y] of
                  Inr d \<Rightarrow> Some d
                | Inl _ \<Rightarrow>
                    (case strptime ''31/01/2099'' [Dir_y, Slash, Dir_m, Slash, Dir_d] of
                       Inr d \<Rightarrow> Some d
                     | Inl _ \<Rightarrow> None))"
    unfolding s0 by blast
  moreover have "strptime ''31/01/2099'' [Dir_d, Slash, Dir_m, Slash, Dir_Y] =
      Inr \<lparr> year = 2099, month = 1, day = 31 \<rparr>"
    by code_simp
  ultimately have p0: "parse_first ''31/01/2099'' accepted_formats =
      Inr (Some \<lparr> year = 2099, month = 1, day = 31 \<rparr>)"
    by simp
  from check_invalid_signup_dates_row [of ?records 1 "'' 2020-01-31 ''" ?env, OF strings i1 g1 n1]
  obtain issues1 parsed1 where
    "parse_first ''2020-01-31'' accepted_formats = Inr parsed1"
    "parsed1 = (case strptime ''2020-01-31'' [Dir_d, Slash, Dir_m, Slash, Dir_Y] of
                  Inr d \<Rightarrow> Some d
                | Inl _ \<Rightarrow>
                    (case strptime ''2020-01-31'' [Dir_y, Slash, Dir_m, Slash, Dir_d] of
                       Inr d \<Rightarrow> Some d
                     | Inl _ \<Rightarrow> None))"
    unfolding s1 by blast
  moreover have "strptime ''2020-01-31'' [Dir_d, Slash, Dir_m, Slash, Dir_Y] = Inl ValueError"
    and "strptime ''2020-01-31'' [Dir_y, Slash, Dir_m, Slash, Dir_d] = Inl ValueError"
    by code_simp+
  ultimately have p1: "parse_first ''2020-01-31'' accepted_formats = Inr None"
    by simp
  from c p0 p1 show ?thesis by blast
qed

section \<open>Properties of the run\<close>

text \<open>
  Claim C4, as amended. When \<open>main\<close> returns, the summary it reports is built from the
  issues of \<open>run_all_checks\<close> before the severity filter: \<open>total_records\<close> is the number
  of records, \<open>total_issues\<close> the number of all issues, and \<open>severity_counts\<close> the tally
  of \<open>count_issues_by_severity\<close> over that same unfiltered list. The issues handed to the
  exporters are the filtered ones; the counts are not taken among them.
\<close>

theorem main_summary_unfiltered:
  assumes "main env a records = Inr out"
  shows "\<exists>all_issues.
           run_all_checks env records = Inr all_issues \<and>
           filter_issues_by_severity all_issues (severity_threshold a) =
             Inr (exported_issues out) \<and>
           total_records (reported_summary out) = length records \<and>
           total_issues (reported_summary out) = length all_issues \<and>
           severity_counts (reported_summary out) = count_issues_by_severity all_issues"
  using assms
  by (auto simp: main_def build_summary_def Let_def split: sum.splits)

theorem main_summary_unfiltered_witness:
  "main \<lparr> int_max_str_digits = 4300, countries_lookup = (\<lambda>raw. None),
          today = \<lparr> year = 2026, month = 11, day = 4 \<rparr> \<rparr>
        \<lparr> fail_on_warning = False, severity_threshold = ''error'' \<rparr>
        [[''email'' \<mapsto> PStr ''ann@example.org'', ''age'' \<mapsto> PStr ''150'',
          ''signup_date'' \<mapsto> PStr ''01/02/2020'']] =
     Inr \<lparr> reported_summary =
             \<lparr> total_records = 1, total_issues = 2,
               severity_counts = [(''info'', 0), (''warning'', 2), (''error'', 0)] \<rparr>,
           exported_issues = [], exit_code = 0 \<rparr> \<and>
   (\<exists>all_issues.
      run_all_checks \<lparr> int_max_str_digits = 4300, countries_lookup = (\<lambda>raw. None),
          today = \<lparr> year = 2026, month = 11, day = 4 \<rparr> \<rparr>
        [[''email'' \<mapsto> PStr ''ann@example.org'', ''age'' \<mapsto> PStr ''150'',
          ''signup_date'' \<mapsto> PStr ''01/02/2020'']] = Inr all_issues \<and>
      filter_issues_by_severity all_issues ''error'' = Inr [] \<and>
      length all_issues = 2 \<and>
      count_issues_by_severity all_issues = [(''info'', 0), (''warning'', 2), (''error'', 0)])"
proof -
  let ?env = "\<lparr> int_max_str_digits = 4300, countries_lookup = (\<lambda>raw. None),
          today = \<lparr> year = 2026, month = 11, day = 4 \<rparr> \<rparr>"
  let ?a = "\<lparr> fail_on_warning = False, severity_threshold = ''error'' \<rparr>"
  let ?records = "[[''email'' \<mapsto> PStr ''ann@example.org'', ''age'' \<mapsto> PStr ''150'',
          ''signup_date'' \<mapsto> PStr ''01/02/2020'']] :: record_row list"
  let ?out = "\<lparr> reported_summary =
             \<lparr> total_records = 1, total_issues = 2,
               severity_counts = [(''info'', 0), (''warning'', 2), (''error'', 0)] \<rparr>,
           exported_issues = [], exit_code = 0 \<rparr>"
  have m: "main ?env ?a ?records = Inr ?out" by code_simp
  from main_summary_unfiltered [OF m] obtain all_issues where
    "run_all_checks ?env ?records = Inr all_issues"
    "filter_issues_by_severity all_issues ''error'' = Inr []"
    "length all_issues = 2"
    "count_issues_by_severity all_issues = [(''info'', 0), (''warning'', 2), (''error'', 0)]"
    by auto
  with m show ?thesis by blast
qed

text \<open>
  The claim as first stated fails: on one empty record at threshold \<open>error\<close> no issue is
  exported, so the counts among the exported issues are all 0, while the summary reports
  4 warnings.
\<close>

theorem main_summary_counts_counterexample:
  "main \<lparr> int_max_str_digits = 4300, countries_lookup = (\<lambda>raw. None),
          today = \<lparr> year = 2026, month = 11, day = 4 \<rparr> \<rparr>
        \<lparr> fail_on_warning = False, severity_threshold = ''error'' \<rparr> [Map.empty] =
     Inr \<lparr> reported_summary =
             \<lparr> total_records = 1, total_issues = 4,
               severity_counts = [(''info'', 0), (''warning'', 4), (''error'', 0)] \<rparr>,
           exported_issues = [], exit_code = 0 \<rparr> \<and>
   count_issues_by_severity [] = [(''info'', 0), (''warning'', 0), (''error'', 0)]"
  by code_simp

subsection \<open>Severities of the issues produced\<close>

lemma emails_severity:
  "check_invalid_emails_body j r = Inr found \<Longrightarrow> x \<in> set found \<Longrightarrow>
   effective_severity x = PStr ''warning''"
  by (auto simp: check_invalid_emails_body_def effective_severity_def issue_get_def
      split: sum.splits if_splits list.splits)

lemma ages_severity:
  "check_invalid_ages_body env j r = Inr found \<Longrightarrow> x \<in> set found \<Longrightarrow>
   effective_severity x = PStr ''warning''"
  by (auto simp: check_invalid_ages_body_def effective_severity_def issue_get_def
      split: sum.splits if_splits)

lemma countries_severity:
  "check_invalid_countries_body env j r = Inr found \<Longrightarrow> x \<in> set found \<Longrightarrow>
   effective_severity x = PStr ''warning''"
  by (auto simp: check_invalid_countries_body_def effective_severity_def issue_get_def Let_def
      split: sum.splits if_splits)

lemma dates_severity:
  "check_invalid_signup_dates_body env j r = Inr found \<Longrightarrow> x \<in> set found \<Longrightarrow>
   effective_severity x = PStr ''warning''"
  by (auto simp: check_invalid_signup_dates_body_def effective_severity_def issue_get_def
      split: sum.splits if_splits option.splits)

text \<open>
  Whenever the four validators return, every issue has severity \<open>warning\<close> or none, and a
  run at threshold \<open>error\<close> exports nothing and returns 0.
\<close>

lemma run_all_checks_severity:
  assumes "run_all_checks env records = Inr issues" and "x \<in> set issues"
  shows "effective_severity x = PStr ''warning''"
proof -
  from assms(1) obtain emails ages countries dates where
    e: "for_enumerate check_invalid_emails_body 1 records = Inr emails"
    and a: "for_enumerate (check_invalid_ages_body env) 1 records = Inr ages"
    and c: "for_enumerate (check_invalid_countries_body env) 1 records = Inr countries"
    and d: "for_enumerate (check_invalid_signup_dates_body env) 1 records = Inr dates"
    and i: "issues = emails @ ages @ countries @ dates"
    by (auto simp: run_all_checks_def check_invalid_emails_def check_invalid_ages_def
        check_invalid_countries_def check_invalid_signup_dates_def split: sum.splits)
  from assms(2) i consider "x \<in> set emails" | "x \<in> set ages" | "x \<in> set countries"
    | "x \<in> set dates" by auto
  then show ?thesis
  proof cases
    case 1
    show ?thesis by (rule for_enumerate_all [OF e 1]) (rule emails_severity)
  next
    case 2
    show ?thesis by (rule for_enumerate_all [OF a 2]) (rule ages_severity)
  next
    case 3
    show ?thesis by (rule for_enumerate_all [OF c 3]) (rule countries_severity)
  next
    case 4
    show ?thesis by (rule for_enumerate_all [OF d 4]) (rule dates_severity)
  qed
qed

lemma main_threshold_error:
  assumes "main env a records = Inr out" and "severity_threshold a = ''error''"
  shows "exported_issues out = [] \<and> exit_code out = 0 \<and>
         severity_counts (reported_summary out) =
           [(''info'', 0), (''warning'', total_issues (reported_summary out)), (''error'', 0)]"
proof -
  from assms(1) obtain all_issues where
    r: "run_all_checks env records = Inr all_issues"
    by (auto simp: main_def split: sum.splits)
  have w: "\<And>x. x \<in> set all_issues \<Longrightarrow> effective_severity x = PStr ''warning''"
    by (rule run_all_checks_severity [OF r])
  have f: "filter_issues_by_severity all_issues ''error'' = Inr []"
    using w by (simp add: filter_issues_by_severity_def SEVERITY_RANK_def rank_get_def
        filter_empty_conv)
  have c: "count_issues_by_severity all_issues =
             [(''info'', 0), (''warning'', length all_issues), (''error'', 0)]"
    using w by (simp add: count_issues_by_severity_eq filter_empty_conv filter_id_conv)
  have e: "determine_exit_code (build_summary records all_issues) [] a = Inr 0"
    using assms(2)
    by (simp add: determine_exit_code_def filter_issues_by_severity_def SEVERITY_RANK_def
        EXIT_OK_def)
  from assms r f c e show ?thesis
    by (auto simp: main_def build_summary_def Let_def)
qed

text \<open>
  Claim C9 says that a run with \<open>--severity-threshold error\<close> always ends with exit
  code 0, since every issue is a warning. A run that returns does (the two lemmas above),
  but a run need not return: on the record list of the one record whose \<open>age\<close> is the
  character U+00B2 the age validator raises, \<open>main\<close> raises with it, and the process ends
  with exit code 30.
\<close>

theorem program_threshold_error_exit_30:
  "program env \<lparr> fail_on_warning = False, severity_threshold = ''error'' \<rparr>
     [[''age'' \<mapsto> PStr [CHR 0xB2]]] = 30"
proof -
  have e: "check_invalid_emails [[''age'' \<mapsto> PStr [CHR 0xB2]]] =
       Inr [[(''row'', PInt 1), (''field'', PStr ''email''), (''value'', PStr []),
             (''reason'', PStr ''email missing or empty'')]]"
    by code_simp
  have a: "check_invalid_ages env [[''age'' \<mapsto> PStr [CHR 0xB2]]] = Inl ValueError"
    by (simp add: check_invalid_ages_def check_invalid_ages_body_def record_get_def py_strip_def
      strip_def isspace_def isdigit_def isdigit_char_def is_decimal_def in_range_def py_int_def
      int_space_def Let_def)
  show ?thesis
    by (simp add: program_def main_def run_all_checks_def e a EXIT_INTERNAL_ERROR_def)
qed

end
